theory Spec2Isabelle
  imports Main "HOL-Library.Word"
begin

section \<open>The user-defined record and its comparison callbacks (UserDefined.c)\<close>

text \<open>
  A C \<^verbatim>\<open>int\<close> is a 32-bit two's-complement word; \<^verbatim>\<open><\<close> and \<^verbatim>\<open>>\<close> on it are the
  signed comparisons.
\<close>

type_synonym cint = "32 word"

text \<open>
  \<^verbatim>\<open>struct myData_ { int number; char * theString; }\<close> as the comparison callbacks see
  it: the number and the characters that \<^verbatim>\<open>theString\<close> points to (the contents in
  front of the terminating NUL).
\<close>

record myData =
  number :: cint
  theString :: string

text \<open>\<^verbatim>\<open>enum order {LESS = -1, EQUAL = 0, GREATER = 1, NOTEQUAL = 2}\<close>\<close>

definition LESS :: cint where "LESS = - 1"
definition EQUAL :: cint where "EQUAL = 0"
definition GREATER :: cint where "GREATER = 1"
definition NOTEQUAL :: cint where "NOTEQUAL = 2"

text \<open>
  \<^verbatim>\<open>enum theKey {INT = 1, STR, SINGLEINT, SINGLESTR}\<close>; the keys \<^verbatim>\<open>INT\<close> and \<^verbatim>\<open>STR\<close>
  are written \<open>INT_key\<close> and \<open>STR_key\<close>, the plain names being taken by the logic's
  syntax.
\<close>

definition INT_key :: cint where "INT_key = 1"
definition STR_key :: cint where "STR_key = 2"
definition SINGLEINT :: cint where "SINGLEINT = 3"
definition SINGLESTR :: cint where "SINGLESTR = 4"

text \<open>
  \<^verbatim>\<open>strcmp\<close> of the C library on the contents of two NUL-terminated strings: the sign
  of the first difference, the bytes compared as unsigned characters; a proper prefix is
  the smaller string.
\<close>

fun strcmp :: "string \<Rightarrow> string \<Rightarrow> int" where
  "strcmp [] [] = 0"
| "strcmp [] (y # ys) = - 1"
| "strcmp (x # xs) [] = 1"
| "strcmp (x # xs) (y # ys) =
     (if x = y then strcmp xs ys
      else if (of_char x :: nat) < of_char y then - 1 else 1)"

text \<open>
  \<^verbatim>\<open>CompareItems\<close>: both pointers are cast to \<^verbatim>\<open>node_p\<close> and only the \<^verbatim>\<open>number\<close>
  fields are read.
\<close>

definition CompareItems :: "myData \<Rightarrow> myData \<Rightarrow> cint" where
  "CompareItems item1 item2 =
     (if number item1 <s number item2 then LESS
      else if number item2 <s number item1 then GREATER
      else EQUAL)"

text \<open>
  The second argument of \<^verbatim>\<open>CompareItemsWithKey\<close> is a \<^verbatim>\<open>const void *\<close> that each case of
  the switch casts to what the key stands for: a \<^verbatim>\<open>node_p\<close>, a \<^verbatim>\<open>char *\<close> or an
  \<^verbatim>\<open>int *\<close>. The operand records what the pointer really points to; a cast to another
  type reads memory of the wrong shape, which the model reports as \<open>BadCast\<close>. One cast
  to another type is well defined: \<^verbatim>\<open>number\<close> is the first member of the struct, so a
  pointer to a record read as \<^verbatim>\<open>int *\<close> yields the record's number.
\<close>

datatype operand = Item myData | StrPtr string | IntPtr cint

datatype fault = BadCast | NullDeref | BadPointer | InvalidFree | OutOfBounds

definition CompareItemsWithKey :: "myData \<Rightarrow> operand \<Rightarrow> cint \<Rightarrow> fault + cint" where
  "CompareItemsWithKey item1 item2 key =
     (if key = INT_key then
        (case item2 of Item d \<Rightarrow> Inr (CompareItems item1 d) | _ \<Rightarrow> Inl BadCast)
      else if key = STR_key then
        (case item2 of
           Item d \<Rightarrow> Inr (if strcmp (theString item1) (theString d) = 0 then EQUAL else NOTEQUAL)
         | _ \<Rightarrow> Inl BadCast)
      else if key = SINGLESTR then
        (case item2 of
           StrPtr s \<Rightarrow> Inr (if strcmp (theString item1) s = 0 then EQUAL else NOTEQUAL)
         | _ \<Rightarrow> Inl BadCast)
      else if key = SINGLEINT then
        (case item2 of
           IntPtr n \<Rightarrow> Inr (if number item1 = n then EQUAL else NOTEQUAL)
         | Item d \<Rightarrow> Inr (if number item1 = number d then EQUAL else NOTEQUAL)
         | StrPtr s \<Rightarrow> Inl BadCast)
      else Inr NOTEQUAL)"

section \<open>Dynamic memory: construction and destruction of records (UserDefined.c)\<close>

text \<open>
  Pointers are addresses, \<^verbatim>\<open>NULL\<close> is address 0. The store maps every live block to
  its contents: a \<^verbatim>\<open>struct myData_\<close> (its number and the pointer \<^verbatim>\<open>theString\<close>) or a
  character array (the contents in front of its NUL). \<open>avail\<close> lists the addresses the
  allocator can still hand out, so that \<^verbatim>\<open>malloc\<close> fails exactly when it is empty.
\<close>

type_synonym addr = nat

definition NULL :: addr where "NULL = 0"

datatype cell = Node cint addr | Chars string

record heap =
  cells :: "addr \<rightharpoonup> cell"
  avail :: "addr list"

text \<open>\<^verbatim>\<open>malloc\<close>: a new block holding \<open>c\<close>, or \<^verbatim>\<open>NULL\<close> when no memory is left.\<close>

definition malloc :: "heap \<Rightarrow> cell \<Rightarrow> addr \<times> heap" where
  "malloc h c =
     (case avail h of
        [] \<Rightarrow> (NULL, h)
      | a # as \<Rightarrow> (a, h\<lparr>cells := (cells h)(a \<mapsto> c), avail := as\<rparr>))"

text \<open>
  \<^verbatim>\<open>free\<close>: nothing happens for \<^verbatim>\<open>NULL\<close>; a pointer to no live block (a second free
  included) is a fault; otherwise the block is gone and its address can be handed out
  again.
\<close>

definition free :: "heap \<Rightarrow> addr \<Rightarrow> fault + heap" where
  "free h p =
     (if p = NULL then Inr h
      else case cells h p of
             None \<Rightarrow> Inl InvalidFree
           | Some c \<Rightarrow> Inr (h\<lparr>cells := (cells h)(p := None), avail := avail h @ [p]\<rparr>))"

text \<open>\<^verbatim>\<open>strdup\<close>: a new character block with a copy of the string, or \<^verbatim>\<open>NULL\<close>.\<close>

definition strdup :: "heap \<Rightarrow> string \<Rightarrow> addr \<times> heap" where
  "strdup h s = malloc h (Chars s)"

text \<open>The assignments \<^verbatim>\<open>p->number = n\<close> and \<^verbatim>\<open>p->theString = s\<close>.\<close>

definition set_number :: "heap \<Rightarrow> addr \<Rightarrow> cint \<Rightarrow> fault + heap" where
  "set_number h p n =
     (if p = NULL then Inl NullDeref
      else case cells h p of
             Some (Node m s) \<Rightarrow> Inr (h\<lparr>cells := (cells h)(p \<mapsto> Node n s)\<rparr>)
           | _ \<Rightarrow> Inl BadPointer)"

definition set_theString :: "heap \<Rightarrow> addr \<Rightarrow> addr \<Rightarrow> fault + heap" where
  "set_theString h p s =
     (if p = NULL then Inl NullDeref
      else case cells h p of
             Some (Node n t) \<Rightarrow> Inr (h\<lparr>cells := (cells h)(p \<mapsto> Node n s)\<rparr>)
           | _ \<Rightarrow> Inl BadPointer)"

definition EXIT_SUCCESS :: cint where "EXIT_SUCCESS = 0"
definition EXIT_FAILURE :: cint where "EXIT_FAILURE = 1"

text \<open>
  \<^verbatim>\<open>NewItem\<close>: the result of \<^verbatim>\<open>malloc\<close> is used without a test, and so is the result of
  \<^verbatim>\<open>strdup\<close>. The contents of the new struct are indeterminate until the two assignments
  (here: 0 and \<^verbatim>\<open>NULL\<close>); both fields are assigned before anything reads them.
  \<open>aString\<close> is the contents of the caller's string, the parameter \<^verbatim>\<open>theString\<close>.
\<close>

definition NewItem :: "heap \<Rightarrow> cint \<Rightarrow> string \<Rightarrow> fault + (addr \<times> heap)" where
  "NewItem h theNumber aString =
     (case malloc h (Node 0 NULL) of
        (newNode, h1) \<Rightarrow>
          (case set_number h1 newNode theNumber of
             Inl e \<Rightarrow> Inl e
           | Inr h2 \<Rightarrow>
               (case strdup h2 aString of
                  (s, h3) \<Rightarrow>
                    (case set_theString h3 newNode s of
                       Inl e \<Rightarrow> Inl e
                     | Inr h4 \<Rightarrow> Inr (newNode, h4)))))"

text \<open>\<^verbatim>\<open>FreeItem\<close>: one call of \<^verbatim>\<open>free\<close>, on the struct.\<close>

definition FreeItem :: "heap \<Rightarrow> addr \<Rightarrow> fault + (cint \<times> heap)" where
  "FreeItem h data_p =
     (if data_p = NULL then Inr (EXIT_FAILURE, h)
      else case free h data_p of
             Inl e \<Rightarrow> Inl e
           | Inr h' \<Rightarrow> Inr (EXIT_SUCCESS, h'))"

text \<open>
  A \<^verbatim>\<open>GList *\<close> is the sequence of the \<^verbatim>\<open>data\<close> pointers of its nodes; the empty list is
  GLib's \<^verbatim>\<open>NULL\<close> list.
\<close>

type_synonym GList = "addr list"

fun DestroyList_loop :: "heap \<Rightarrow> GList \<Rightarrow> fault + (cint \<times> heap)" where
  "DestroyList_loop h [] = Inr (EXIT_SUCCESS, h)"
| "DestroyList_loop h (node # l) =
     (case FreeItem h node of
        Inl e \<Rightarrow> Inl e
      | Inr (r, h') \<Rightarrow>
          if r = EXIT_FAILURE then Inr (EXIT_FAILURE, h') else DestroyList_loop h' l)"

definition DestroyList :: "heap \<Rightarrow> GList \<Rightarrow> fault + (cint \<times> heap)" where
  "DestroyList h theList_p =
     (if theList_p \<noteq> [] then DestroyList_loop h theList_p else Inr (EXIT_FAILURE, h))"

text \<open>The conversion \<^verbatim>\<open>%d\<close> of \<^verbatim>\<open>printf\<close>.\<close>

fun digits_of :: "nat \<Rightarrow> string" where
  "digits_of n =
     (if n < 10 then [char_of (48 + n)]
      else digits_of (n div 10) @ [char_of (48 + n mod 10)])"

declare digits_of.simps [simp del]

definition printf_d :: "cint \<Rightarrow> string" where
  "printf_d n =
     (if sint n < 0 then CHR ''-'' # digits_of (nat (- sint n)) else digits_of (nat (sint n)))"

text \<open>
  Reading a record through a \<^verbatim>\<open>node_p\<close>: the number and the characters of the string.
  Reading through \<^verbatim>\<open>NULL\<close>, through a pointer that is not a live struct, or through a
  string pointer that is not a live string, is a fault.
\<close>

definition load_item :: "heap \<Rightarrow> addr \<Rightarrow> fault + myData" where
  "load_item h p =
     (if p = NULL then Inl NullDeref
      else case cells h p of
             Some (Node n s) \<Rightarrow>
               (if s = NULL then Inl NullDeref
                else case cells h s of
                       Some (Chars str) \<Rightarrow> Inr \<lparr>number = n, theString = str\<rparr>
                     | _ \<Rightarrow> Inl BadPointer)
           | _ \<Rightarrow> Inl BadPointer)"

text \<open>The line \<^verbatim>\<open>printf("Data Element: %d %s\n", number, theString)\<close>.\<close>

definition printf_item :: "myData \<Rightarrow> string" where
  "printf_item d = ''Data Element: '' @ printf_d (number d) @ '' '' @ theString d @ [CHR 0x0A]"

text \<open>\<^verbatim>\<open>PrintItem\<close> appends one line to the standard output \<open>out\<close>.\<close>

definition PrintItem :: "heap \<Rightarrow> string \<Rightarrow> addr \<Rightarrow> fault + (cint \<times> string)" where
  "PrintItem h out data_p =
     (if data_p = NULL then Inr (EXIT_FAILURE, out)
      else case load_item h data_p of
             Inl e \<Rightarrow> Inl e
           | Inr d \<Rightarrow> Inr (EXIT_SUCCESS, out @ printf_item d))"

fun PrintList_loop :: "heap \<Rightarrow> string \<Rightarrow> GList \<Rightarrow> fault + (cint \<times> string)" where
  "PrintList_loop h out [] = Inr (EXIT_SUCCESS, out)"
| "PrintList_loop h out (d # aux) =
     (case PrintItem h out d of
        Inl e \<Rightarrow> Inl e
      | Inr (r, out') \<Rightarrow>
          if r = EXIT_FAILURE then Inr (EXIT_FAILURE, out') else PrintList_loop h out' aux)"

definition PrintList :: "heap \<Rightarrow> string \<Rightarrow> GList \<Rightarrow> fault + (cint \<times> string)" where
  "PrintList h out myList_p =
     (if myList_p = [] then Inr (EXIT_FAILURE, out) else PrintList_loop h out myList_p)"

section \<open>The tokenizer (FileIO.c)\<close>

text \<open>
  A \<^verbatim>\<open>FILE *\<close> opened for reading: the characters not yet read and the end-of-file
  indicator. \<^verbatim>\<open>getc\<close> returns \<^verbatim>\<open>EOF\<close> and sets the indicator when nothing is left or
  the indicator is already set; \<^verbatim>\<open>ungetc\<close> pushes one character back and clears the
  indicator. Characters read are \<^verbatim>\<open>int\<close> values between 0 and 255, \<^verbatim>\<open>EOF\<close> is -1: no
  arithmetic on them overflows, so they are plain integers.
\<close>

record FILE =
  buf :: string
  eof :: bool

definition fopen :: "string \<Rightarrow> FILE" where
  "fopen s = \<lparr>buf = s, eof = False\<rparr>"

definition EOF :: int where "EOF = - 1"

definition getc :: "FILE \<Rightarrow> int \<times> FILE" where
  "getc fp =
     (if eof fp then (EOF, fp)
      else case buf fp of
             [] \<Rightarrow> (EOF, fp\<lparr>eof := True\<rparr>)
           | x # xs \<Rightarrow> (of_char x, fp\<lparr>buf := xs\<rparr>))"

definition ungetc :: "int \<Rightarrow> FILE \<Rightarrow> FILE" where
  "ungetc c fp = fp\<lparr>buf := char_of c # buf fp, eof := False\<rparr>"

definition feof :: "FILE \<Rightarrow> bool" where
  "feof fp = eof fp"

text \<open>\<^verbatim>\<open>isdigit\<close> and \<^verbatim>\<open>isalpha\<close> in the C locale; both are false of \<^verbatim>\<open>EOF\<close>.\<close>

definition isdigit :: "int \<Rightarrow> bool" where
  "isdigit c \<longleftrightarrow> of_char CHR ''0'' \<le> c \<and> c \<le> of_char CHR ''9''"

definition isalpha :: "int \<Rightarrow> bool" where
  "isalpha c \<longleftrightarrow>
     (of_char CHR ''A'' \<le> c \<and> c \<le> of_char CHR ''Z'')
     \<or> (of_char CHR ''a'' \<le> c \<and> c \<le> of_char CHR ''z'')"

text \<open>
  The comment loop \<^verbatim>\<open>do { c = getc (fp); } while ( c != '\n');\<close> of both readers. It
  has no other exit, so it need not return: \<open>None\<close> is the loop that runs forever.
\<close>

partial_function (option) skip_comment :: "FILE \<Rightarrow> (int \<times> FILE) option" where
  "skip_comment fp =
     (case getc fp of
        (c, fp') \<Rightarrow> if c \<noteq> of_char (CHR 0x0A) then skip_comment fp' else Some (c, fp'))"

declare skip_comment.simps [code]

text \<open>
  The first loop of \<^verbatim>\<open>GetInt\<close>, from a given \<open>sign\<close>: it leaves the last character
  read, the sign and the stream.
\<close>

partial_function (option) GetInt_skip :: "cint \<Rightarrow> FILE \<Rightarrow> (int \<times> cint \<times> FILE) option" where
  "GetInt_skip sign fp =
     (case getc fp of
        (c, fp1) \<Rightarrow>
          Option.bind (if c = of_char CHR ''#'' then skip_comment fp1 else Some (c, fp1))
            (\<lambda>(c2, fp2).
               let sign' = (if c2 = of_char CHR ''-'' then - 1 else sign)
               in if \<not> isdigit c2 \<and> \<not> feof fp2 then GetInt_skip sign' fp2
                  else Some (c2, sign', fp2)))"

declare GetInt_skip.simps [code]

text \<open>
  The conversion loop \<^verbatim>\<open>while (isdigit (c) && !feof(fp))\<close>. The accumulation
  \<^verbatim>\<open>i = (i*10) + (c - '0')\<close> is done in 32 bits.
\<close>

function GetInt_digits :: "int \<Rightarrow> cint \<Rightarrow> FILE \<Rightarrow> int \<times> cint \<times> FILE" where
  "GetInt_digits c i fp =
     (if isdigit c \<and> \<not> feof fp then
        (case getc fp of
           (c', fp') \<Rightarrow> GetInt_digits c' (i * 10 + of_int (c - of_char CHR ''0'')) fp')
      else (c, i, fp))"
  by pat_completeness auto
termination
  by (relation "measure (\<lambda>(c, i, fp). length (buf fp) + (if eof fp then 0 else 1))")
     (auto simp: getc_def feof_def split: if_splits list.splits)

declare GetInt_digits.simps [simp del]

text \<open>
  \<^verbatim>\<open>GetInt\<close> returns the integer and leaves the stream changed. The value \<^verbatim>\<open>EOF\<close> is
  returned as an \<^verbatim>\<open>int\<close>.
\<close>

definition GetInt :: "FILE \<Rightarrow> (cint \<times> FILE) option" where
  "GetInt fp =
     Option.bind (GetInt_skip 1 fp)
       (\<lambda>(c, sign, fp1).
          if feof fp1 then Some (of_int EOF, fp1)
          else case GetInt_digits c 0 fp1 of
                 (c2, i, fp2) \<Rightarrow>
                   (case getc fp2 of
                      (c3, fp3) \<Rightarrow>
                        Some (i * sign, if c3 \<noteq> EOF then ungetc c3 fp3 else fp3)))"

text \<open>\<^verbatim>\<open>#define BUFSIZE 256\<close>\<close>

definition BUFSIZE :: nat where "BUFSIZE = 256"

text \<open>
  The assignment \<^verbatim>\<open>buffer[i] = v\<close> to the local array: an index outside the array is a
  fault.
\<close>

definition store :: "string \<Rightarrow> nat \<Rightarrow> char \<Rightarrow> fault + string" where
  "store buffer i v = (if i < length buffer then Inr (buffer[i := v]) else Inl OutOfBounds)"

text \<open>The first loop of \<^verbatim>\<open>GetString\<close>.\<close>

partial_function (option) GetString_skip :: "FILE \<Rightarrow> (int \<times> FILE) option" where
  "GetString_skip fp =
     (case getc fp of
        (c, fp1) \<Rightarrow>
          Option.bind (if c = of_char CHR ''#'' then skip_comment fp1 else Some (c, fp1))
            (\<lambda>(c2, fp2).
               if \<not> isalpha c2 \<and> \<not> feof fp2 then GetString_skip fp2
               else Some (c2, fp2)))"

declare GetString_skip.simps [code]

text \<open>
  The copying loop \<^verbatim>\<open>while (isalpha (c) && !feof(fp) && (i < BUFSIZE))\<close>.
\<close>

function GetString_chars ::
  "int \<Rightarrow> nat \<Rightarrow> string \<Rightarrow> FILE \<Rightarrow> fault + (int \<times> nat \<times> string \<times> FILE)" where
  "GetString_chars c i buffer fp =
     (if isalpha c \<and> \<not> feof fp \<and> i < BUFSIZE then
        (case store buffer i (char_of c) of
           Inl e \<Rightarrow> Inl e
         | Inr buffer' \<Rightarrow>
             (case getc fp of (c', fp') \<Rightarrow> GetString_chars c' (i + 1) buffer' fp'))
      else Inr (c, i, buffer, fp))"
  by pat_completeness auto
termination
  by (relation "measure (\<lambda>(c, i, buffer, fp). BUFSIZE - i)") auto

declare GetString_chars.simps [simp del]

text \<open>
  What \<^verbatim>\<open>strdup\<close> copies out of the array: the characters in front of the first NUL.
\<close>

definition c_str :: "string \<Rightarrow> string" where
  "c_str buffer = takeWhile (\<lambda>x. x \<noteq> CHR 0x00) buffer"

text \<open>
  \<^verbatim>\<open>GetString\<close>: \<open>None\<close> inside the result is the \<^verbatim>\<open>NULL\<close> returned at the end of the
  file. The array \<^verbatim>\<open>buffer\<close> has \<open>BUFSIZE\<close> cells of indeterminate contents (here: NUL);
  \<^verbatim>\<open>strdup\<close> reads only cells that were written before.
\<close>

definition GetString :: "FILE \<Rightarrow> (fault + (string option \<times> FILE)) option" where
  "GetString fp =
     Option.bind (GetString_skip fp)
       (\<lambda>(c, fp1).
          if feof fp1 then Some (Inr (None, fp1))
          else Some
            (case GetString_chars c 0 (replicate BUFSIZE (CHR 0x00)) fp1 of
               Inl e \<Rightarrow> Inl e
             | Inr (c2, i, buffer, fp2) \<Rightarrow>
                 (case store buffer i (CHR 0x00) of
                    Inl e \<Rightarrow> Inl e
                  | Inr buffer' \<Rightarrow>
                      (case getc fp2 of
                         (c3, fp3) \<Rightarrow>
                           Inr (Some (c_str buffer'),
                                if c3 \<noteq> EOF then ungetc c3 fp3 else fp3)))))"

section \<open>Properties of the comparison callbacks\<close>

lemma strcmp_eq_0_iff: "strcmp xs ys = 0 \<longleftrightarrow> xs = ys"
  by (induction xs ys rule: strcmp.induct) auto

lemmas order_defs = LESS_def EQUAL_def GREATER_def NOTEQUAL_def

lemmas key_defs = INT_key_def STR_key_def SINGLEINT_def SINGLESTR_def

text \<open>
  Claim C1. \<^verbatim>\<open>CompareItemsWithKey\<close> with the key \<^verbatim>\<open>STR\<close> returns \<^verbatim>\<open>EQUAL\<close> when the two
  strings are the same byte for byte and \<^verbatim>\<open>NOTEQUAL\<close> otherwise, never \<^verbatim>\<open>LESS\<close> or
  \<^verbatim>\<open>GREATER\<close>; with \<^verbatim>\<open>SINGLEINT\<close> it returns \<^verbatim>\<open>EQUAL\<close> exactly when the number equals
  the integer pointed to, with \<^verbatim>\<open>SINGLESTR\<close> exactly when the string equals the string
  pointed to, and \<^verbatim>\<open>NOTEQUAL\<close> otherwise; with \<^verbatim>\<open>INT\<close> it returns what \<^verbatim>\<open>CompareItems\<close>
  returns; with any other key it returns \<^verbatim>\<open>NOTEQUAL\<close>, whatever the second operand is.
\<close>

theorem CompareItemsWithKey_dispatch:
  "CompareItemsWithKey a (Item b) STR_key =
     Inr (if theString a = theString b then EQUAL else NOTEQUAL)
   \<and> CompareItemsWithKey a (Item b) STR_key \<noteq> Inr LESS
   \<and> CompareItemsWithKey a (Item b) STR_key \<noteq> Inr GREATER
   \<and> CompareItemsWithKey a (IntPtr n) SINGLEINT =
       Inr (if number a = n then EQUAL else NOTEQUAL)
   \<and> CompareItemsWithKey a (StrPtr s) SINGLESTR =
       Inr (if theString a = s then EQUAL else NOTEQUAL)
   \<and> CompareItemsWithKey a (Item b) INT_key = Inr (CompareItems a b)
   \<and> (key \<notin> {INT_key, STR_key, SINGLEINT, SINGLESTR} \<longrightarrow>
        CompareItemsWithKey a x key = Inr NOTEQUAL)"
  by (simp add: CompareItemsWithKey_def strcmp_eq_0_iff key_defs order_defs)

theorem CompareItemsWithKey_dispatch_witness:
  "CompareItemsWithKey \<lparr>number = 6, theString = ''Donald''\<rparr>
      (Item \<lparr>number = 7, theString = ''Daisy''\<rparr>) STR_key = Inr NOTEQUAL
   \<and> CompareItemsWithKey \<lparr>number = 6, theString = ''Donald''\<rparr> (IntPtr 6) SINGLEINT = Inr EQUAL
   \<and> CompareItemsWithKey \<lparr>number = 6, theString = ''Donald''\<rparr> (StrPtr ''Donald'') SINGLESTR
       = Inr EQUAL
   \<and> (7::cint) \<notin> {INT_key, STR_key, SINGLEINT, SINGLESTR}
   \<and> CompareItemsWithKey \<lparr>number = 6, theString = ''Donald''\<rparr> (StrPtr ''Donald'') 7
       = Inr NOTEQUAL"
  using CompareItemsWithKey_dispatch
    [of "\<lparr>number = 6, theString = ''Donald''\<rparr>" "\<lparr>number = 7, theString = ''Daisy''\<rparr>"
        6 "''Donald''" 7 "StrPtr ''Donald''"]
  by (simp add: key_defs)

text \<open>
  Claim C2. \<^verbatim>\<open>CompareItems\<close> orders by the number alone, as signed integers: it
  returns \<^verbatim>\<open>LESS\<close> exactly when the first number is smaller, \<^verbatim>\<open>GREATER\<close> exactly when it
  is larger and \<^verbatim>\<open>EQUAL\<close> exactly when the numbers are equal, whatever the strings are.
  An item compares \<^verbatim>\<open>EQUAL\<close> to itself, swapping the arguments swaps \<^verbatim>\<open>LESS\<close> and
  \<^verbatim>\<open>GREATER\<close>, and both the strict and the non-strict order are transitive.
\<close>

theorem CompareItems_total_order:
  "(CompareItems a b = LESS \<longleftrightarrow> sint (number a) < sint (number b))
   \<and> (CompareItems a b = GREATER \<longleftrightarrow> sint (number a) > sint (number b))
   \<and> (CompareItems a b = EQUAL \<longleftrightarrow> number a = number b)
   \<and> CompareItems a b \<in> {LESS, EQUAL, GREATER}
   \<and> CompareItems \<lparr>number = n, theString = s\<rparr> \<lparr>number = n, theString = t\<rparr> = EQUAL
   \<and> CompareItems a a = EQUAL
   \<and> (CompareItems a b = LESS \<longleftrightarrow> CompareItems b a = GREATER)
   \<and> (CompareItems a b = EQUAL \<longleftrightarrow> CompareItems b a = EQUAL)
   \<and> (CompareItems a b = LESS \<and> CompareItems b c = LESS \<longrightarrow> CompareItems a c = LESS)
   \<and> (CompareItems a b \<noteq> GREATER \<and> CompareItems b c \<noteq> GREATER \<longrightarrow>
        CompareItems a c \<noteq> GREATER)"
  by (auto simp: CompareItems_def order_defs word_sless_alt dest: signed_word_eqI)

theorem CompareItems_total_order_witness:
  "CompareItems \<lparr>number = - 7, theString = ''Foo''\<rparr> \<lparr>number = 8, theString = ''Bar''\<rparr> = LESS
   \<and> CompareItems \<lparr>number = 8, theString = ''Bar''\<rparr> \<lparr>number = 9, theString = ''Baz''\<rparr> = LESS
   \<and> CompareItems \<lparr>number = - 7, theString = ''Foo''\<rparr> \<lparr>number = 9, theString = ''Baz''\<rparr> = LESS
   \<and> CompareItems \<lparr>number = 8, theString = ''Bar''\<rparr> \<lparr>number = - 7, theString = ''Foo''\<rparr> = GREATER"
  using CompareItems_total_order
    [of "\<lparr>number = - 7, theString = ''Foo''\<rparr>" "\<lparr>number = 8, theString = ''Bar''\<rparr>" 0 "[]" "[]"
        "\<lparr>number = 9, theString = ''Baz''\<rparr>"]
  by (simp add: CompareItems_def order_defs)

section \<open>Properties of construction and destruction\<close>

lemma NewItem_enough_memory:
  assumes "avail h = p # q # rest" "p \<noteq> NULL" "p \<noteq> q"
  shows "NewItem h n s =
           Inr (p, h\<lparr>cells := (cells h)(q \<mapsto> Chars s, p \<mapsto> Node n q), avail := rest\<rparr>)"
  using assms by (simp add: NewItem_def malloc_def strdup_def set_number_def set_theString_def)

text \<open>
  Claim C3 asks that \<^verbatim>\<open>FreeItem\<close> release the string and the struct. It releases the
  struct only: whenever the allocator has two distinct addresses \<open>p\<close> and \<open>q\<close> to hand
  out, \<^verbatim>\<open>NewItem\<close> puts the struct at \<open>p\<close> and the copy of the string at \<open>q\<close>, and after
  \<^verbatim>\<open>FreeItem\<close> of the new item the struct is gone while the string block at \<open>q\<close> is still
  allocated, with no pointer to it left and its address not available again.
\<close>

theorem FreeItem_leaks_theString:
  assumes "avail h = p # q # rest" "p \<noteq> NULL" "q \<noteq> NULL" "p \<noteq> q" "q \<notin> set rest"
  shows "\<exists>h' h''. NewItem h n s = Inr (p, h')
           \<and> cells h' p = Some (Node n q) \<and> cells h' q = Some (Chars s)
           \<and> FreeItem h' p = Inr (EXIT_SUCCESS, h'')
           \<and> cells h'' p = None \<and> cells h'' q = Some (Chars s)
           \<and> q \<notin> set (avail h'')"
  using assms
  by (simp add: NewItem_enough_memory FreeItem_def free_def)

theorem FreeItem_leaks_theString_witness:
  "NewItem \<lparr>cells = Map.empty, avail = [1, 2]\<rparr> 13 ''Hello'' =
     Inr (1, \<lparr>cells = [2 \<mapsto> Chars ''Hello'', 1 \<mapsto> Node 13 2], avail = []\<rparr>)
   \<and> FreeItem \<lparr>cells = [2 \<mapsto> Chars ''Hello'', 1 \<mapsto> Node 13 2], avail = []\<rparr> 1 =
       Inr (EXIT_SUCCESS, \<lparr>cells = [2 \<mapsto> Chars ''Hello''], avail = [1]\<rparr>)"
proof -
  let ?h = "\<lparr>cells = Map.empty, avail = [1, 2]\<rparr>"
  have a: "avail ?h = 1 # 2 # []" "(1::addr) \<noteq> NULL" "(2::addr) \<noteq> NULL" "(1::addr) \<noteq> 2"
    "(2::addr) \<notin> set []"
    by (simp_all add: NULL_def)
  from FreeItem_leaks_theString [OF a, of 13 "''Hello''"]
  show ?thesis
    by (auto simp: NewItem_def malloc_def strdup_def set_number_def set_theString_def
        FreeItem_def free_def NULL_def)
qed

text \<open>
  Claim C4 asks that \<^verbatim>\<open>NewItem\<close> report an allocation failure and never leave a record
  half built. With no memory left, the \<^verbatim>\<open>NULL\<close> that \<^verbatim>\<open>malloc\<close> returns is dereferenced
  by the assignment of the number; with memory for the struct only, \<^verbatim>\<open>NewItem\<close> returns
  a record whose \<^verbatim>\<open>theString\<close> is \<^verbatim>\<open>NULL\<close>.
\<close>

theorem NewItem_unchecked_allocations:
  "NewItem \<lparr>cells = Map.empty, avail = []\<rparr> 13 ''Hello'' = Inl NullDeref
   \<and> NewItem \<lparr>cells = Map.empty, avail = [1]\<rparr> 13 ''Hello'' =
       Inr (1, \<lparr>cells = [1 \<mapsto> Node 13 NULL], avail = []\<rparr>)"
  by (simp add: NewItem_def malloc_def strdup_def set_number_def set_theString_def NULL_def)

section \<open>Properties of the list-wide operations\<close>

lemma success_ne_failure: "EXIT_SUCCESS \<noteq> EXIT_FAILURE"
  by (simp add: EXIT_SUCCESS_def EXIT_FAILURE_def)

lemma PrintItem_valid:
  "load_item h p = Inr d \<Longrightarrow> PrintItem h out p = Inr (EXIT_SUCCESS, out @ printf_item d)"
  by (auto simp: PrintItem_def load_item_def)

lemma PrintList_loop_valid:
  "map (load_item h) ys = map Inr ds \<Longrightarrow>
     PrintList_loop h out (ys @ zs) = PrintList_loop h (out @ concat (map printf_item ds)) zs"
proof (induction ys arbitrary: ds out)
  case Nil
  then show ?case by simp
next
  case (Cons y ys)
  then obtain d ds' where ds: "ds = d # ds'" "load_item h y = Inr d"
    "map (load_item h) ys = map Inr ds'"
    by (cases ds) auto
  from Cons.IH [OF ds(3)] ds(1,2) show ?case
    by (simp add: PrintItem_valid success_ne_failure)
qed

lemma PrintList_halts:
  assumes "map (load_item h) ys = map Inr ds"
  shows "PrintList h out (ys @ NULL # zs) = Inr (EXIT_FAILURE, out @ concat (map printf_item ds))"
    and "ys \<noteq> [] \<Longrightarrow> PrintList h out ys = Inr (EXIT_SUCCESS, out @ concat (map printf_item ds))"
  using PrintList_loop_valid [OF assms, of out "NULL # zs"]
        PrintList_loop_valid [OF assms, of out "[]"]
  by (simp_all add: PrintList_def PrintItem_def)

lemma FreeItem_live:
  "p \<noteq> NULL \<Longrightarrow> p \<in> dom (cells h) \<Longrightarrow>
     FreeItem h p = Inr (EXIT_SUCCESS, h\<lparr>cells := (cells h)(p := None), avail := avail h @ [p]\<rparr>)"
  by (auto simp: FreeItem_def free_def)

lemma DestroyList_loop_live:
  "distinct ps \<Longrightarrow> NULL \<notin> set ps \<Longrightarrow> set ps \<subseteq> dom (cells h) \<Longrightarrow>
     DestroyList_loop h (ps @ zs) =
       DestroyList_loop (h\<lparr>cells := cells h |` (- set ps), avail := avail h @ ps\<rparr>) zs"
proof (induction ps arbitrary: h)
  case Nil
  then show ?case by simp
next
  case (Cons y ys)
  let ?h' = "h\<lparr>cells := (cells h)(y := None), avail := avail h @ [y]\<rparr>"
  from Cons.prems have f: "FreeItem h y = Inr (EXIT_SUCCESS, ?h')"
    by (intro FreeItem_live) auto
  from Cons.prems have "distinct ys" "NULL \<notin> set ys" "set ys \<subseteq> dom (cells ?h')"
    by auto
  from Cons.IH [OF this]
  have ih: "DestroyList_loop ?h' (ys @ zs) =
      DestroyList_loop (?h'\<lparr>cells := cells ?h' |` (- set ys), avail := avail ?h' @ ys\<rparr>) zs" .
  have eq: "?h'\<lparr>cells := cells ?h' |` (- set ys), avail := avail ?h' @ ys\<rparr> =
      h\<lparr>cells := cells h |` (- set (y # ys)), avail := avail h @ y # ys\<rparr>"
    by (simp add: restrict_map_def fun_eq_iff)
  from f ih show ?case
    unfolding eq by (simp add: success_ne_failure)
qed

lemma DestroyList_halts:
  assumes "distinct ps" "NULL \<notin> set ps" "set ps \<subseteq> dom (cells h)"
  shows "DestroyList h (ps @ NULL # zs) =
           Inr (EXIT_FAILURE, h\<lparr>cells := cells h |` (- set ps), avail := avail h @ ps\<rparr>)"
    and "ps \<noteq> [] \<Longrightarrow> DestroyList h ps =
           Inr (EXIT_SUCCESS, h\<lparr>cells := cells h |` (- set ps), avail := avail h @ ps\<rparr>)"
  using DestroyList_loop_live [OF assms, of "NULL # zs"]
        DestroyList_loop_live [OF assms, of "[]"]
  by (simp_all add: DestroyList_def FreeItem_def)

text \<open>
  A list that holds the same live pointer twice makes \<^verbatim>\<open>DestroyList\<close> free it twice: the
  second \<^verbatim>\<open>free\<close> is a fault, not a return value.
\<close>

lemma DestroyList_double_free:
  "DestroyList \<lparr>cells = [1 \<mapsto> Node 13 2, 2 \<mapsto> Chars ''Hello''], avail = []\<rparr> [1, 1] =
     Inl InvalidFree"
  by (simp add: DestroyList_def FreeItem_def free_def NULL_def EXIT_SUCCESS_def EXIT_FAILURE_def)

text \<open>
  Claim C5 says that for every list \<^verbatim>\<open>PrintList\<close> and \<^verbatim>\<open>DestroyList\<close> return success
  when no element fails. The empty list is GLib's \<^verbatim>\<open>NULL\<close>, which both functions test
  for first: no element fails, and both return \<^verbatim>\<open>EXIT_FAILURE\<close>.
\<close>

theorem bulk_operations_fail_on_empty_list:
  "PrintList \<lparr>cells = Map.empty, avail = []\<rparr> [] [] = Inr (EXIT_FAILURE, [])
   \<and> DestroyList \<lparr>cells = Map.empty, avail = []\<rparr> [] =
       Inr (EXIT_FAILURE, \<lparr>cells = Map.empty, avail = []\<rparr>)
   \<and> EXIT_FAILURE \<noteq> EXIT_SUCCESS"
  by (simp add: PrintList_def DestroyList_def EXIT_SUCCESS_def EXIT_FAILURE_def)

text \<open>
  Claim C5, amended. An element fails exactly when its data pointer is \<^verbatim>\<open>NULL\<close>. Let the
  list be non-empty and take the elements in front of its first \<^verbatim>\<open>NULL\<close> element, or all
  of them when there is none.
  For \<^verbatim>\<open>PrintList\<close>, provided each of these pointers \<open>ys\<close> points to a live record whose
  \<^verbatim>\<open>theString\<close> points to a live string (the records \<open>ds\<close>): the lines of \<open>ds\<close> are printed
  in order; at a \<^verbatim>\<open>NULL\<close> element \<^verbatim>\<open>EXIT_FAILURE\<close> is returned and nothing after it is
  touched; without one \<^verbatim>\<open>EXIT_SUCCESS\<close> is returned.
  For \<^verbatim>\<open>DestroyList\<close>, provided these pointers \<open>ps\<close> are pairwise distinct and each is a
  live block: exactly the blocks \<open>ps\<close> are freed, in order; at a \<^verbatim>\<open>NULL\<close> element
  \<^verbatim>\<open>EXIT_FAILURE\<close> is returned and nothing after it is touched; without one
  \<^verbatim>\<open>EXIT_SUCCESS\<close> is returned.
  On the empty list both return \<^verbatim>\<open>EXIT_FAILURE\<close> and do nothing.
\<close>

theorem bulk_operations_halt_on_first_failure:
  assumes "map (load_item h) ys = map Inr ds"
    and "distinct ps" and "NULL \<notin> set ps" and "set ps \<subseteq> dom (cells h)"
  shows "PrintList h out (ys @ NULL # zs) =
           Inr (EXIT_FAILURE, out @ concat (map printf_item ds))
       \<and> (ys \<noteq> [] \<longrightarrow>
            PrintList h out ys = Inr (EXIT_SUCCESS, out @ concat (map printf_item ds)))
       \<and> DestroyList h (ps @ NULL # zs) =
           Inr (EXIT_FAILURE, h\<lparr>cells := cells h |` (- set ps), avail := avail h @ ps\<rparr>)
       \<and> (ps \<noteq> [] \<longrightarrow>
            DestroyList h ps =
              Inr (EXIT_SUCCESS, h\<lparr>cells := cells h |` (- set ps), avail := avail h @ ps\<rparr>))
       \<and> PrintList h out [] = Inr (EXIT_FAILURE, out)
       \<and> DestroyList h [] = Inr (EXIT_FAILURE, h)"
  by (simp add: PrintList_halts [OF assms(1)] DestroyList_halts [OF assms(2,3,4)]
      PrintList_def [of h out "[]"] DestroyList_def [of h "[]"])

theorem bulk_operations_halt_on_first_failure_witness:
  "PrintList \<lparr>cells = [1 \<mapsto> Node 13 2, 2 \<mapsto> Chars ''Hello'', 3 \<mapsto> Node (- 4) 4,
                        4 \<mapsto> Chars ''Bye''], avail = []\<rparr> [] [1, 3, NULL, 1] =
     Inr (EXIT_FAILURE,
          printf_item \<lparr>number = 13, theString = ''Hello''\<rparr>
          @ printf_item \<lparr>number = - 4, theString = ''Bye''\<rparr>)
   \<and> PrintList \<lparr>cells = [1 \<mapsto> Node 13 2, 2 \<mapsto> Chars ''Hello'', 3 \<mapsto> Node (- 4) 4,
                        4 \<mapsto> Chars ''Bye''], avail = []\<rparr> [] [1, 3] =
     Inr (EXIT_SUCCESS,
          printf_item \<lparr>number = 13, theString = ''Hello''\<rparr>
          @ printf_item \<lparr>number = - 4, theString = ''Bye''\<rparr>)
   \<and> (\<exists>h'. DestroyList \<lparr>cells = [1 \<mapsto> Node 13 2, 2 \<mapsto> Chars ''Hello'', 3 \<mapsto> Node (- 4) 4,
                        4 \<mapsto> Chars ''Bye''], avail = []\<rparr> [1, 3, NULL, 1] = Inr (EXIT_FAILURE, h')
          \<and> avail h' = [1, 3] \<and> cells h' 1 = None \<and> cells h' 3 = None
          \<and> cells h' 2 = Some (Chars ''Hello''))
   \<and> (\<exists>h'. DestroyList \<lparr>cells = [1 \<mapsto> Node 13 2, 2 \<mapsto> Chars ''Hello'', 3 \<mapsto> Node (- 4) 4,
                        4 \<mapsto> Chars ''Bye''], avail = []\<rparr> [1, 3] = Inr (EXIT_SUCCESS, h')
          \<and> avail h' = [1, 3])"
proof -
  let ?h = "\<lparr>cells = [1 \<mapsto> Node 13 2, 2 \<mapsto> Chars ''Hello'', 3 \<mapsto> Node (- 4) 4,
                      4 \<mapsto> Chars ''Bye''], avail = []\<rparr>"
  have a: "map (load_item ?h) [1, 3] =
      map Inr [\<lparr>number = 13, theString = ''Hello''\<rparr>, \<lparr>number = - 4, theString = ''Bye''\<rparr>]"
    by (simp add: load_item_def NULL_def)
  have b: "distinct [1, 3 :: addr]" "NULL \<notin> set [1, 3]" "set [1, 3] \<subseteq> dom (cells ?h)"
    by (simp_all add: NULL_def)
  from bulk_operations_halt_on_first_failure [OF a b, of "[]" "[1]"]
  show ?thesis
    by simp
qed

section \<open>Properties of the tokenizer\<close>

lemma of_char_not_EOF: "(of_char x :: int) \<noteq> EOF"
proof -
  have "(0::int) \<le> of_char x" by (simp add: of_char_def)
  then show ?thesis by (simp add: EOF_def)
qed

lemma not_isdigit_EOF: "\<not> isdigit EOF"
  by (simp add: isdigit_def EOF_def)

lemma GetInt_skip_exit_aux:
  assumes "GetInt_skip sign fp = Some r"
  shows "isdigit (fst r) \<or> feof (snd (snd r))"
  using assms
proof (induct rule: GetInt_skip.raw_induct [rotated 1, consumes 1, case_names step])
  case (step skip sign fp r)
  then show ?case
    by (auto simp: Let_def split: prod.splits if_splits Option.bind_splits)
qed

lemma GetInt_skip_exit:
  "GetInt_skip sign fp = Some (c, sign', fp1) \<Longrightarrow> \<not> feof fp1 \<Longrightarrow> isdigit c"
  using GetInt_skip_exit_aux [of sign fp "(c, sign', fp1)"] by simp

lemma GetInt_skip_plain_prefix:
  assumes "\<forall>x\<in>set pre. \<not> isdigit (of_char x) \<and> x \<noteq> CHR ''#''" and "isdigit (of_char d)"
  shows "GetInt_skip sign \<lparr>buf = pre @ d # rest, eof = False\<rparr> =
           Some (of_char d, if CHR ''-'' \<in> set pre then - 1 else sign, \<lparr>buf = rest, eof = False\<rparr>)"
  using assms(1)
proof (induction pre arbitrary: sign)
  case Nil
  have "d \<noteq> CHR ''#''" "d \<noteq> CHR ''-''"
    using assms(2) by (auto simp: isdigit_def)
  then have "(of_char d :: int) \<noteq> of_char CHR ''#''" "(of_char d :: int) \<noteq> of_char CHR ''-''"
    by (simp_all only: of_char_eq_iff not_False_eq_True)
  with assms(2) show ?case
    by (subst GetInt_skip.simps) (simp add: getc_def feof_def)
next
  case (Cons x pre)
  then have x: "\<not> isdigit (of_char x)" "x \<noteq> CHR ''#''"
    and pre: "\<forall>x\<in>set pre. \<not> isdigit (of_char x) \<and> x \<noteq> CHR ''#''"
    by auto
  show ?case
    by (subst GetInt_skip.simps)
       (simp add: getc_def feof_def x Cons.IH [OF pre] del: of_char_Char)
qed

lemma GetInt_digits_single:
  assumes "isdigit c"
  shows "GetInt_digits c i \<lparr>buf = [], eof = False\<rparr> =
           (EOF, i * 10 + of_int (c - of_char CHR ''0''), \<lparr>buf = [], eof = True\<rparr>)"
  using assms
  by (simp add: GetInt_digits.simps [of c] GetInt_digits.simps [of EOF] getc_def feof_def
      not_isdigit_EOF)

text \<open>
  Claim C6 asks that a minus sign negate the integer only when it stands immediately in
  front of the first digit. \<^verbatim>\<open>GetInt\<close> sets \<^verbatim>\<open>sign = -1\<close> at every minus sign it skips
  and never sets it back: whenever the characters in front of a digit hold a minus sign
  anywhere (and no digit and no \<^verbatim>\<open>#\<close>), the value returned is negated.
\<close>

theorem GetInt_negates_after_any_minus:
  assumes "\<forall>x\<in>set pre. \<not> isdigit (of_char x) \<and> x \<noteq> CHR ''#''"
    and "CHR ''-'' \<in> set pre" and "isdigit (of_char d)"
  shows "GetInt (fopen (pre @ [d])) =
           Some (- of_int (of_char d - of_char CHR ''0''), \<lparr>buf = [], eof = True\<rparr>)"
  using assms(2,3)
  by (simp add: GetInt_def fopen_def GetInt_skip_plain_prefix [OF assms(1,3)] feof_def
      GetInt_digits_single getc_def del: of_char_Char)

theorem GetInt_negates_after_any_minus_witness:
  "\<not> isdigit (of_char CHR ''-'') \<and> \<not> isdigit (of_char CHR ''a'')
   \<and> CHR ''-'' \<in> set ''-a'' \<and> isdigit (of_char CHR ''5'')
   \<and> GetInt (fopen ''-a5'') = Some (- 5, \<lparr>buf = [], eof = True\<rparr>)"
proof -
  have a: "\<forall>x\<in>set ''-a''. \<not> isdigit (of_char x) \<and> x \<noteq> CHR ''#''"
    by (simp add: isdigit_def)
  have b: "CHR ''-'' \<in> set ''-a''" by simp
  have c: "isdigit (of_char CHR ''5'')" by (simp add: isdigit_def)
  from GetInt_negates_after_any_minus [OF a b c] a b c show ?thesis
    by (simp add: isdigit_def)
qed

lemma GetInt_digits_position:
  assumes "isdigit c" "\<not> eof fp"
  shows "\<exists>c' i'. GetInt_digits c i fp =
           (c', i', \<lparr>buf = drop 1 (dropWhile (\<lambda>x. isdigit (of_char x)) (buf fp)),
                    eof = (dropWhile (\<lambda>x. isdigit (of_char x)) (buf fp) = [])\<rparr>)"
  using assms
proof (induction "buf fp" arbitrary: c i fp)
  case Nil
  then have "getc fp = (EOF, fp\<lparr>eof := True\<rparr>)"
    by (simp add: getc_def)
  with Nil show ?case
    by (simp add: GetInt_digits.simps [of c] GetInt_digits.simps [of EOF] feof_def
        not_isdigit_EOF Nil(1) [symmetric])
next
  case (Cons x xs)
  from Cons(2) [symmetric] Cons.prems have g: "getc fp = (of_char x, fp\<lparr>buf := xs\<rparr>)"
    by (simp add: getc_def)
  show ?case
  proof (cases "isdigit (of_char x)")
    case True
    have "xs = buf (fp\<lparr>buf := xs\<rparr>)" by simp
    from Cons(1) [OF this True, of "i * 10 + of_int (c - of_char CHR ''0'')"] Cons.prems
    obtain c' i' where
      "GetInt_digits (of_char x) (i * 10 + of_int (c - of_char CHR ''0'')) (fp\<lparr>buf := xs\<rparr>) =
         (c', i', \<lparr>buf = drop 1 (dropWhile (\<lambda>x. isdigit (of_char x)) xs),
                  eof = (dropWhile (\<lambda>x. isdigit (of_char x)) xs = [])\<rparr>)"
      by auto
    with g True Cons.prems Cons(2) [symmetric] show ?thesis
      by (simp add: GetInt_digits.simps [of c] feof_def)
  next
    case False
    with g Cons.prems Cons(2) [symmetric] show ?thesis
      by (simp add: GetInt_digits.simps [of c] GetInt_digits.simps [of "of_char x"] feof_def)
  qed
qed


lemma lookahead_position:
  "(case getc \<lparr>buf = drop 1 d, eof = (d = [])\<rparr> of
      (c3, fp3) \<Rightarrow> if c3 \<noteq> EOF then ungetc c3 fp3 else fp3) =
   \<lparr>buf = drop 1 d, eof = (drop 1 d = [])\<rparr>"
proof (cases d)
  case Nil
  then show ?thesis by (simp add: getc_def)
next
  case (Cons x r)
  then show ?thesis
    by (cases r) (simp_all add: getc_def ungetc_def of_char_not_EOF)
qed

text \<open>
  Claim C7 says that after a number the stream stands immediately behind the last digit.
  The conversion loop has already read the character that ends the number when the
  lookahead reads the next one, and only the lookahead is pushed back: after \<^verbatim>\<open>12ab\<close>
  the stream stands at \<^verbatim>\<open>b\<close>, the \<^verbatim>\<open>a\<close> is lost.
\<close>

theorem GetInt_consumes_terminator:
  "GetInt (fopen ''12ab'') = Some (12, \<lparr>buf = ''b'', eof = False\<rparr>)"
  by code_simp

text \<open>
  Claim C7, amended. When the first loop of \<^verbatim>\<open>GetInt\<close> ends at a digit, with the stream
  \<open>fp1\<close> behind that digit, \<^verbatim>\<open>GetInt\<close> returns and leaves the stream one character
  behind the digits that follow: the character that ends the number is consumed, nothing
  after it is; the end-of-file indicator is set exactly when nothing is left.
\<close>

theorem GetInt_leaves_stream_after_terminator:
  assumes "GetInt_skip 1 fp = Some (c, sign, fp1)" and "\<not> feof fp1"
  shows "\<exists>v. GetInt fp =
           Some (v, \<lparr>buf = drop 1 (dropWhile (\<lambda>x. isdigit (of_char x)) (buf fp1)),
                      eof = (drop 1 (dropWhile (\<lambda>x. isdigit (of_char x)) (buf fp1)) = [])\<rparr>)"
proof -
  define d where "d = dropWhile (\<lambda>x. isdigit (of_char x)) (buf fp1)"
  from assms(2) have "\<not> eof fp1" by (simp add: feof_def)
  moreover from assms have "isdigit c" by (rule GetInt_skip_exit)
  ultimately have "\<exists>c' i'. GetInt_digits c 0 fp1 =
      (c', i', \<lparr>buf = drop 1 (dropWhile (\<lambda>x. isdigit (of_char x)) (buf fp1)),
               eof = (dropWhile (\<lambda>x. isdigit (of_char x)) (buf fp1) = [])\<rparr>)"
    by (intro GetInt_digits_position)
  then obtain c' i' where dg: "GetInt_digits c 0 fp1 = (c', i', \<lparr>buf = drop 1 d, eof = (d = [])\<rparr>)"
    unfolding d_def by blast
  define fin where "fin =
    (case getc \<lparr>buf = drop 1 d, eof = (d = [])\<rparr> of
       (c3, fp3) \<Rightarrow> if c3 \<noteq> EOF then ungetc c3 fp3 else fp3)"
  have fin: "fin = \<lparr>buf = drop 1 d, eof = (drop 1 d = [])\<rparr>"
    unfolding fin_def by (rule lookahead_position)
  have "GetInt fp = Some (i' * sign, fin)"
    unfolding GetInt_def fin_def using assms(1,2) dg by (simp split: prod.splits)
  then show ?thesis
    unfolding fin d_def by blast
qed

theorem GetInt_leaves_stream_after_terminator_witness:
  "GetInt_skip 1 (fopen ''x12ab'') = Some (of_char CHR ''1'', 1, \<lparr>buf = ''2ab'', eof = False\<rparr>)
   \<and> \<not> feof \<lparr>buf = ''2ab'', eof = False\<rparr>
   \<and> (\<exists>v. GetInt (fopen ''x12ab'') = Some (v, \<lparr>buf = ''b'', eof = False\<rparr>))"
proof -
  have s: "GetInt_skip 1 (fopen ''x12ab'') =
      Some (of_char CHR ''1'', 1, \<lparr>buf = ''2ab'', eof = False\<rparr>)"
    by code_simp
  have f: "\<not> feof \<lparr>buf = ''2ab'', eof = False\<rparr>"
    by (simp add: feof_def)
  from GetInt_leaves_stream_after_terminator [OF s f] s f show ?thesis
    by (simp add: isdigit_def)
qed

lemma skip_comment_Some_newline:
  assumes "skip_comment fp = Some r"
  shows "CHR 0x0A \<in> set (buf fp) \<and> \<not> eof fp"
  using assms
proof (induct rule: skip_comment.raw_induct [rotated 1, consumes 1, case_names step])
  case (step skip fp r)
  show ?case
  proof (cases "eof fp")
    case True
    with step show ?thesis
      by (fastforce simp: getc_def EOF_def split: if_splits)
  next
    case False
    note ne = this
    show ?thesis
    proof (cases "buf fp")
      case Nil
      with step ne show ?thesis
        by (fastforce simp: getc_def EOF_def split: if_splits)
    next
      case (Cons x xs)
      with ne have g: "getc fp = (of_char x, fp\<lparr>buf := xs\<rparr>)"
        by (simp add: getc_def)
      show ?thesis
      proof (cases "x = CHR 0x0A")
        case True
        with Cons ne show ?thesis by simp
      next
        case False
        then have "(of_char x :: int) \<noteq> of_char (CHR 0x0A)"
          by (simp only: of_char_eq_iff not_False_eq_True)
        with step(2) g have "skip (fp\<lparr>buf := xs\<rparr>) = Some r"
          by simp
        from step(1) [OF this] Cons ne show ?thesis by simp
      qed
    qed
  qed
qed

lemma skip_comment_diverges:
  "CHR 0x0A \<notin> set (buf fp) \<Longrightarrow> skip_comment fp = None"
  using skip_comment_Some_newline [of fp] by (cases "skip_comment fp") auto

lemma GetInt_skip_comment_diverges:
  "CHR 0x0A \<notin> set s \<Longrightarrow> GetInt_skip sign (fopen (CHR ''#'' # s)) = None"
  by (subst GetInt_skip.simps) (simp add: getc_def fopen_def skip_comment_diverges)

lemma GetString_skip_comment_diverges:
  "CHR 0x0A \<notin> set s \<Longrightarrow> GetString_skip (fopen (CHR ''#'' # s)) = None"
  by (subst GetString_skip.simps) (simp add: getc_def fopen_def skip_comment_diverges)

text \<open>
  Claim C8 asks that \<^verbatim>\<open>GetInt\<close> and \<^verbatim>\<open>GetString\<close> terminate on every finite stream, a
  last comment line without newline included. The comment loop only ends at a newline:
  on a stream that starts a comment and holds no newline after it, \<^verbatim>\<open>getc\<close> returns
  \<^verbatim>\<open>EOF\<close> for ever and neither function returns.
\<close>

theorem comment_without_newline_diverges:
  "CHR 0x0A \<notin> set s \<Longrightarrow>
     GetInt (fopen (CHR ''#'' # s)) = None \<and> GetString (fopen (CHR ''#'' # s)) = None"
  by (simp add: GetInt_def GetString_def GetInt_skip_comment_diverges
        GetString_skip_comment_diverges)

theorem comment_without_newline_diverges_witness:
  "CHR 0x0A \<notin> set ''abc'' \<and> GetInt (fopen ''#abc'') = None \<and> GetString (fopen ''#abc'') = None"
  using comment_without_newline_diverges [of "''abc''"] by simp

lemma not_isalpha_hash: "isalpha (of_char x) \<Longrightarrow> x \<noteq> CHR ''#''"
  by (auto simp: isalpha_def)

lemma GetString_skip_at_letter:
  assumes "isalpha (of_char x)"
  shows "GetString_skip \<lparr>buf = x # xs, eof = False\<rparr> = Some (of_char x, \<lparr>buf = xs, eof = False\<rparr>)"
  using assms not_isalpha_hash [OF assms]
  by (subst GetString_skip.simps) (simp add: getc_def feof_def del: of_char_Char)

lemma GetString_chars_full:
  "GetString_chars c BUFSIZE buffer fp = Inr (c, BUFSIZE, buffer, fp)"
  by (simp add: GetString_chars.simps [of c BUFSIZE])

lemma GetString_chars_fills_buffer:
  assumes "length buffer = BUFSIZE" and "i \<le> BUFSIZE" and "isalpha c" and "\<not> eof fp"
    and "buf fp = w @ rest" and "\<forall>x\<in>set w. isalpha (of_char x)"
    and "BUFSIZE \<le> i + 1 + length w"
  shows "\<exists>c' buffer' fp'. GetString_chars c i buffer fp = Inr (c', BUFSIZE, buffer', fp')
           \<and> length buffer' = BUFSIZE"
  using assms
proof (induction w arbitrary: c i buffer fp)
  case Nil
  show ?case
  proof (cases "i = BUFSIZE")
    case True
    with Nil show ?thesis by (simp add: GetString_chars_full)
  next
    case False
    with Nil have i: "i + 1 = BUFSIZE" by simp
    with Nil show ?thesis
      by (simp add: GetString_chars.simps [of c i] feof_def store_def
          GetString_chars_full split: prod.splits)
  qed
next
  case (Cons x w)
  show ?case
  proof (cases "i = BUFSIZE")
    case True
    with Cons.prems show ?thesis by (simp add: GetString_chars_full)
  next
    case False
    with Cons.prems have lt: "i < BUFSIZE" by simp
    from Cons.prems have g: "getc fp = (of_char x, fp\<lparr>buf := w @ rest\<rparr>)"
      by (simp add: getc_def)
    have "\<exists>c' buffer' fp'.
        GetString_chars (of_char x) (i + 1) (buffer[i := char_of c]) (fp\<lparr>buf := w @ rest\<rparr>) =
          Inr (c', BUFSIZE, buffer', fp') \<and> length buffer' = BUFSIZE"
      using Cons.prems lt by (intro Cons.IH) auto
    with Cons.prems lt g show ?thesis
      by (simp add: GetString_chars.simps [of c i] feof_def store_def)
  qed
qed

text \<open>
  A word of 255 letters is the longest that fits: with 256 letters the terminating NUL is
  written to \<^verbatim>\<open>buffer[256]\<close>.
\<close>

lemma GetString_buffer_boundary:
  "GetString (fopen (replicate 256 CHR ''a'')) = Some (Inl OutOfBounds)
   \<and> GetString (fopen (replicate 255 CHR ''a'')) =
       Some (Inr (Some (replicate 255 CHR ''a''), \<lparr>buf = [], eof = True\<rparr>))"
  by code_simp

text \<open>
  Claim C9 asks that \<^verbatim>\<open>GetString\<close> keep every write inside the 256 bytes of its buffer.
  The copying loop runs while \<^verbatim>\<open>i < BUFSIZE\<close>: a word of 256 letters or more fills all
  256 cells, and the terminating NUL is then written to \<^verbatim>\<open>buffer[256]\<close>, one past the end.
\<close>

theorem GetString_overflows_on_long_word:
  assumes "\<forall>x\<in>set w. isalpha (of_char x)" and "BUFSIZE \<le> length w"
  shows "GetString (fopen (w @ rest)) = Some (Inl OutOfBounds)"
proof -
  from assms(2) obtain x w' where w: "w = x # w'"
    by (cases w) (auto simp: BUFSIZE_def)
  with assms(1) have x: "isalpha (of_char x)" and w': "\<forall>x\<in>set w'. isalpha (of_char x)"
    by auto
  let ?fp1 = "\<lparr>buf = w' @ rest, eof = False\<rparr>"
  have "\<exists>c' buffer' fp'.
      GetString_chars (of_char x) 0 (replicate BUFSIZE (CHR 0x00)) ?fp1 =
        Inr (c', BUFSIZE, buffer', fp') \<and> length buffer' = BUFSIZE"
    using x w' assms(2) w by (intro GetString_chars_fills_buffer [where w = w' and rest = rest]) auto
  then obtain c' buffer' fp' where
    "GetString_chars (of_char x) 0 (replicate BUFSIZE (CHR 0x00)) ?fp1 =
       Inr (c', BUFSIZE, buffer', fp')" and "length buffer' = BUFSIZE"
    by blast
  then show ?thesis
    by (simp add: GetString_def fopen_def w GetString_skip_at_letter [OF x] feof_def store_def)
qed

theorem GetString_overflows_on_long_word_witness:
  "isalpha (of_char CHR ''a'') \<and> BUFSIZE \<le> length (replicate 256 CHR ''a'')
   \<and> GetString (fopen (replicate 256 CHR ''a'' @ '' tail'')) = Some (Inl OutOfBounds)"
proof -
  have a: "\<forall>x\<in>set (replicate 256 CHR ''a''). isalpha (of_char x)"
    by (simp add: isalpha_def)
  have b: "BUFSIZE \<le> length (replicate 256 CHR ''a'')"
    by (simp add: BUFSIZE_def)
  from GetString_overflows_on_long_word [OF a b, of "'' tail''"] b show ?thesis
    by (simp add: isalpha_def)
qed

text \<open>
  Claim C10. The value that \<^verbatim>\<open>GetInt\<close> returns at the end of the stream is \<^verbatim>\<open>EOF\<close>, the
  integer -1, and it is the value returned for a stream that holds the number -1: the
  empty stream and the stream \<^verbatim>\<open>-1\<close> give the same value and leave the same stream.
\<close>

theorem GetInt_EOF_is_minus_one:
  "GetInt (fopen '''') = Some (of_int EOF, \<lparr>buf = [], eof = True\<rparr>)
   \<and> GetInt (fopen ''-1'') = Some (of_int EOF, \<lparr>buf = [], eof = True\<rparr>)
   \<and> GetInt (fopen ''-1 x'') = Some (of_int EOF, \<lparr>buf = ''x'', eof = False\<rparr>)
   \<and> (of_int EOF :: cint) = - 1"
  by code_simp

end
